theory Spec2Isabelle
  imports Main "HOL-Library.Word"
begin

section \<open>Kernel data read by mntfs\<close>

text \<open>
  mntfs.c is a Linux kernel module (2.6.38 API, LP64): \<open>int\<close> is a 32-bit word,
  \<open>unsigned long\<close>, \<open>loff_t\<close> and \<open>u64\<close> are 64-bit words.  Arithmetic on them
  wraps; \<open>sint\<close> reads the signed value.
\<close>

type_synonym c_int = "32 word"
type_synonym c_ulong = "64 word"
type_synonym loff_t = "64 word"

datatype errno = ENOENT | ENOMEM | EFAULT | EINVAL | ENAMETOOLONG

text \<open>\<open>NAME_MAX\<close> and \<open>PATH_MAX\<close> of linux/limits.h, \<open>DT_LNK\<close> of linux/fs.h.\<close>

definition NAME_MAX :: nat where
  "NAME_MAX = 255"

definition PATH_MAX :: nat where
  "PATH_MAX = 4096"

definition DT_LNK :: "32 word" where
  "DT_LNK = 10"

text \<open>
  \<open>struct qstr\<close>: \<open>name\<close> holds the bytes before the terminating NUL, \<open>len\<close> is the
  length field the dcache stores beside it.
\<close>

record qstr =
  len :: nat
  name :: string

datatype inode_operations = mntfs_root_inode_operations | mntfs_link_inode_operations

datatype file_operations = mntfs_root_file_operations

datatype super_operations = mntfs_super_operations

record inode =
  i_ino :: c_ulong
  I_NEW :: bool
  i_nlink :: nat
  i_mtime :: nat
  i_atime :: nat
  i_ctime :: nat
  i_mode :: "16 word"
  i_op :: "inode_operations option"
  i_fop :: "file_operations option"

text \<open>
  A pointer that is \<open>NULL\<close>, an \<open>ERR_PTR\<close> or a valid object is an option of a sum:
  \<open>d_inode\<close> is \<open>None\<close> for \<open>NULL\<close>, \<open>Some (Inl e)\<close> for \<open>ERR_PTR(-e)\<close>.
\<close>

record dentry =
  d_name :: qstr
  d_inode :: "(errno + inode) option"

record vfsmount =
  mnt_id :: c_int
  mnt_root :: dentry

record path =
  mnt :: vfsmount
  dentry :: dentry

record nameidata =
  path :: path

record mnt_namespace =
  list :: "vfsmount list"

record nsproxy =
  mnt_ns :: "mnt_namespace option"

record struct_file =
  f_pos :: loff_t

record dentry_operations =
  d_delete :: "(dentry \<Rightarrow> c_int) option"

record super_block =
  s_op :: "super_operations option"
  s_root :: "dentry option"
  s_d_op :: "dentry_operations option"

text \<open>
  What the rest of the kernel answers during one operation.  These functions are not part
  of mntfs.c, so their results are inputs: \<open>task_nsproxy\<close> is \<open>task_nsproxy(current)\<close>,
  \<open>kmalloc\<close> tells whether the allocation returns a buffer, \<open>d_path\<close> composes the
  path of a location into a buffer of the given size, \<open>copy_to_user\<close> tells whether the
  caller's buffer is writable, \<open>iget_locked\<close> and \<open>d_alloc_root\<close> return \<open>None\<close> for
  \<open>NULL\<close>.
\<close>

record kernel =
  task_nsproxy :: "nsproxy option"
  kmalloc :: bool
  d_path :: "path \<Rightarrow> nat \<Rightarrow> errno + string"
  copy_to_user :: bool
  iget_locked :: "c_ulong \<Rightarrow> inode option"
  d_alloc_root :: "inode \<Rightarrow> dentry option"
  CURRENT_TIME :: nat

text \<open>
  The reference-count calls an operation makes, in the order it makes them.  Every
  operation takes the log so far and returns it extended.
\<close>

datatype event = Mntget vfsmount | Mntput vfsmount | Path_get path | Path_put path

text \<open>One call of the \<open>filldir\<close> callback: name, length, offset, inode number, type.\<close>

record dirent =
  dirent_name :: string
  dirent_namlen :: nat
  dirent_offset :: loff_t
  dirent_ino :: "64 word"
  dirent_type :: "32 word"

section \<open>Library routines\<close>

subsection \<open>\<open>snprintf(buf, size, "%d", v)\<close>\<close>

definition digit_char :: "nat \<Rightarrow> char" where
  "digit_char d = char_of (48 + d)"

fun dec_nat :: "nat \<Rightarrow> string" where
  "dec_nat n = (if n < 10 then [digit_char n] else dec_nat (n div 10) @ [digit_char (n mod 10)])"

declare dec_nat.simps [simp del]

definition dec_int :: "int \<Rightarrow> string" where
  "dec_int i = (if i < 0 then CHR ''-'' # dec_nat (nat (- i)) else dec_nat (nat i))"

text \<open>The buffer receives at most \<open>size - 1\<close> bytes; the result is the untruncated length.\<close>

definition snprintf_d :: "nat \<Rightarrow> c_int \<Rightarrow> string \<times> nat" where
  "snprintf_d sz v = (take (sz - 1) (dec_int (sint v)), length (dec_int (sint v)))"

subsection \<open>\<open>strict_strtoul(cp, 10, &res)\<close> of lib/vsprintf.c\<close>

text \<open>
  The parser as Linux 2.6.38 has it: the empty string is rejected; otherwise the leading
  decimal digits are read by \<open>simple_strtoul\<close>, and the value is accepted when at least
  one digit was read and the rest is empty or a single final newline.
\<close>

definition isdigit :: "char \<Rightarrow> bool" where
  "isdigit c = (48 \<le> (of_char c :: nat) \<and> (of_char c :: nat) \<le> 57)"

text \<open>
  The loop of \<open>simple_strtoull\<close> in base 10: it consumes decimal digits, accumulates
  them modulo \<open>2 ^ 64\<close> and returns the value with the unread tail.
\<close>

fun simple_strtoul :: "c_ulong \<Rightarrow> string \<Rightarrow> c_ulong \<times> string" where
  "simple_strtoul acc [] = (acc, [])"
| "simple_strtoul acc (c # cs) =
     (if isdigit c then simple_strtoul (acc * 10 + of_nat (of_char c - 48)) cs
      else (acc, c # cs))"

definition strict_strtoul :: "string \<Rightarrow> errno + c_ulong" where
  "strict_strtoul cp =
     (if cp = [] then Inl EINVAL
      else case simple_strtoul 0 cp of (val, tail) \<Rightarrow>
        if tail = cp then Inl EINVAL
        else if tail = [] \<or> tail = [CHR 0x0A] then Inr val
        else Inl EINVAL)"

subsection \<open>\<open>vfs_readlink\<close> of fs/namei.c\<close>

text \<open>
  It copies the link text, cut at \<open>(unsigned) buflen\<close> bytes, to the caller's buffer.
  The second component is what the buffer received (\<open>None\<close> when the copy faulted).
\<close>

definition vfs_readlink :: "kernel \<Rightarrow> c_int \<Rightarrow> string \<Rightarrow> (errno + nat) \<times> string option" where
  "vfs_readlink k buflen link =
     (let n = (if length link > unat buflen then unat buflen else length link)
      in if copy_to_user k then (Inr n, Some (take n link)) else (Inl EFAULT, None))"

definition d_add :: "dentry \<Rightarrow> errno + inode \<Rightarrow> dentry" where
  "d_add de ino = de\<lparr>d_inode := Some ino\<rparr>"

section \<open>mntfs.c\<close>

definition mnt_inode :: "vfsmount \<Rightarrow> c_int" where
  "mnt_inode m = mnt_id m + 1000"

definition mntfs_dentry_delete :: "dentry \<Rightarrow> c_int" where
  "mntfs_dentry_delete de = 1"

definition mntfs_dentry_operations :: dentry_operations where
  "mntfs_dentry_operations = \<lparr>d_delete = Some mntfs_dentry_delete\<rparr>"

text \<open>Lines 33 to 35 and 97 to 99: the mount namespace of the calling task, if any.\<close>

definition current_mnt_ns :: "kernel \<Rightarrow> mnt_namespace option" where
  "current_mnt_ns k = (case task_nsproxy k of None \<Rightarrow> None | Some nsp \<Rightarrow> mnt_ns nsp)"

text \<open>The \<open>list_for_each_entry\<close> loop of \<open>find_mount_by_id\<close>: the first record with the id.\<close>

fun find_mount_loop :: "vfsmount list \<Rightarrow> c_int \<Rightarrow> vfsmount option" where
  "find_mount_loop [] i = None"
| "find_mount_loop (m # ms) i = (if mnt_id m = i then Some m else find_mount_loop ms i)"

definition find_mount_by_id :: "kernel \<Rightarrow> c_int \<Rightarrow> event list \<Rightarrow> (errno + vfsmount) \<times> event list" where
  "find_mount_by_id k i tr =
     (case current_mnt_ns k of
        None \<Rightarrow> (Inl ENOENT, tr)
      | Some ns \<Rightarrow>
          (case find_mount_loop (list ns) i of
             Some m \<Rightarrow> (Inr m, tr @ [Mntget m])
           | None \<Rightarrow> (Inl ENOENT, tr)))"

text \<open>\<open>name[0]\<close> of a C string: the NUL terminator when the string is empty.\<close>

definition first_char :: "string \<Rightarrow> char" where
  "first_char s = (case s of [] \<Rightarrow> CHR 0x00 | c # _ \<Rightarrow> c)"

text \<open>The parsed \<open>unsigned long\<close> is passed for an \<open>int\<close> parameter: it is truncated.\<close>

definition find_mount_by_dentry :: "kernel \<Rightarrow> dentry \<Rightarrow> event list \<Rightarrow> (errno + vfsmount) \<times> event list" where
  "find_mount_by_dentry k de tr =
     (if len (d_name de) > NAME_MAX then (Inl ENAMETOOLONG, tr)
      else if first_char (name (d_name de)) = CHR ''0'' \<and> len (d_name de) > 1 then (Inl ENOENT, tr)
      else case strict_strtoul (name (d_name de)) of
             Inl e \<Rightarrow> (Inl ENOENT, tr)
           | Inr i \<Rightarrow> find_mount_by_id k (ucast i) tr)"

text \<open>The mode bits of linux/stat.h: octal 040000, 0120000, 0444, 0111 and 0777.\<close>

definition S_IFDIR :: "16 word" where "S_IFDIR = 0x4000"
definition S_IFLNK :: "16 word" where "S_IFLNK = 0xA000"
definition S_IRUGO :: "16 word" where "S_IRUGO = 0x124"
definition S_IXUGO :: "16 word" where "S_IXUGO = 0x49"
definition S_IRWXUGO :: "16 word" where "S_IRWXUGO = 0x1FF"

definition mntfs_iget :: "kernel \<Rightarrow> c_ulong \<Rightarrow> errno + inode" where
  "mntfs_iget k ino =
     (case iget_locked k ino of
        None \<Rightarrow> Inl ENOMEM
      | Some i \<Rightarrow>
          if \<not> I_NEW i then Inr i
          else
            (let i1 = i\<lparr>i_nlink := 1, i_mtime := CURRENT_TIME k, i_atime := CURRENT_TIME k,
                        i_ctime := CURRENT_TIME k\<rparr>;
                 i2 = (if ino = 1
                       then i1\<lparr>i_mode := or S_IFDIR (or S_IRUGO S_IXUGO),
                               i_fop := Some mntfs_root_file_operations,
                               i_op := Some mntfs_root_inode_operations\<rparr>
                       else i1\<lparr>i_mode := or S_IFLNK S_IRWXUGO,
                               i_op := Some mntfs_link_inode_operations\<rparr>)
             in Inr (i2\<lparr>I_NEW := False\<rparr>)))"

text \<open>
  \<open>mntfs_lookup\<close> returns \<open>NULL\<close> (here \<open>Inr ()\<close>) or an \<open>ERR_PTR\<close>.  The \<open>int\<close> of
  \<open>mnt_inode\<close> is converted to the \<open>unsigned long\<close> parameter of \<open>mntfs_iget\<close> by sign
  extension.  The result of \<open>mntfs_iget\<close> goes to \<open>d_add\<close> unchecked.
\<close>

definition mntfs_lookup :: "kernel \<Rightarrow> dentry \<Rightarrow> event list \<Rightarrow> (errno + unit) \<times> dentry \<times> event list" where
  "mntfs_lookup k de tr =
     (case find_mount_by_dentry k de tr of
        (Inl e, tr1) \<Rightarrow> (Inl e, de, tr1)
      | (Inr m, tr1) \<Rightarrow>
          (let ino = mntfs_iget k (scast (mnt_inode m));
               de1 = d_add de ino
           in (Inr (), de1, tr1 @ [Mntput m])))"

text \<open>
  The loop of \<open>mntfs_readdir\<close>: \<open>fp\<close> is \<open>filp->f_pos\<close>, \<open>i\<close> the \<open>int\<close> counter,
  \<open>out\<close> the calls of \<open>filldir\<close> made so far.  The result of \<open>filldir\<close> is ignored.
\<close>

fun readdir_loop :: "vfsmount list \<Rightarrow> loff_t \<Rightarrow> c_int \<Rightarrow> dirent list \<Rightarrow> loff_t \<times> dirent list" where
  "readdir_loop [] fp i out = (fp, out)"
| "readdir_loop (m # ms) fp i out =
     (if word_sle fp (scast i)
      then (case snprintf_d 13 (mnt_id m) of (nm, n) \<Rightarrow>
              readdir_loop ms (scast (i + 1)) (i + 1)
                (out @ [\<lparr>dirent_name = nm, dirent_namlen = n, dirent_offset = fp,
                         dirent_ino = scast (mnt_inode m), dirent_type = DT_LNK\<rparr>]))
      else readdir_loop ms fp (i + 1) out)"

definition mntfs_readdir :: "kernel \<Rightarrow> struct_file \<Rightarrow> event list \<Rightarrow> c_int \<times> struct_file \<times> dirent list \<times> event list" where
  "mntfs_readdir k filp tr =
     (case current_mnt_ns k of
        None \<Rightarrow> (0, filp, [], tr)
      | Some ns \<Rightarrow>
          (case readdir_loop (list ns) (f_pos filp) 0 [] of
             (fp, out) \<Rightarrow> (0, filp\<lparr>f_pos := fp\<rparr>, out, tr)))"

text \<open>
  \<open>mntfs_readlink\<close> returns the negated errno or the number of bytes copied, with what the
  caller's buffer received.  \<open>error\<close> starts as \<open>-ENOENT\<close> and is assigned only by
  \<open>vfs_readlink\<close>.
\<close>

definition mntfs_readlink :: "kernel \<Rightarrow> dentry \<Rightarrow> c_int \<Rightarrow> event list \<Rightarrow> (errno + nat) \<times> string option \<times> event list" where
  "mntfs_readlink k de buflen tr =
     (case find_mount_by_dentry k de tr of
        (Inl e, tr1) \<Rightarrow> (Inl e, None, tr1)
      | (Inr m, tr1) \<Rightarrow>
          if \<not> kmalloc k then (Inl ENOENT, None, tr1 @ [Mntput m])
          else
            (case d_path k \<lparr>mnt = m, dentry = mnt_root m\<rparr> PATH_MAX of
               Inl e \<Rightarrow> (Inl ENOENT, None, tr1 @ [Mntput m])
             | Inr nm \<Rightarrow>
                 (case vfs_readlink k buflen nm of
                    (r, ubuf) \<Rightarrow> (r, ubuf, tr1 @ [Mntput m]))))"

definition mntfs_follow :: "kernel \<Rightarrow> dentry \<Rightarrow> nameidata \<Rightarrow> event list \<Rightarrow> (errno + unit) \<times> nameidata \<times> event list" where
  "mntfs_follow k de nd tr =
     (let tr0 = tr @ [Path_put (path nd)]
      in case find_mount_by_dentry k de tr0 of
           (Inl e, tr1) \<Rightarrow> (Inl e, nd, tr1)
         | (Inr m, tr1) \<Rightarrow>
             (let nd1 = nd\<lparr>path := \<lparr>mnt = m, dentry = mnt_root m\<rparr>\<rparr>
              in (Inr (), nd1, tr1 @ [Path_get (path nd1), Mntput m])))"

definition mntfs_fill_super :: "kernel \<Rightarrow> super_block \<Rightarrow> (errno + unit) \<times> super_block" where
  "mntfs_fill_super k sb =
     (let sb1 = sb\<lparr>s_op := Some mntfs_super_operations\<rparr>
      in case mntfs_iget k 1 of
           Inl e \<Rightarrow> (Inl e, sb1)
         | Inr root \<Rightarrow>
             (let sb2 = sb1\<lparr>s_root := d_alloc_root k root\<rparr>;
                  sb3 = sb2\<lparr>s_d_op := Some mntfs_dentry_operations\<rparr>
              in if s_root sb3 = None then (Inl ENOMEM, sb3) else (Inr (), sb3)))"

section \<open>Notions used by the properties\<close>

text \<open>The \<open>mntget\<close> and \<open>mntput\<close> calls of a log, in order.\<close>

fun mount_refs :: "event list \<Rightarrow> event list" where
  "mount_refs [] = []"
| "mount_refs (Mntget m # es) = Mntget m # mount_refs es"
| "mount_refs (Mntput m # es) = Mntput m # mount_refs es"
| "mount_refs (e # es) = mount_refs es"

text \<open>
  The directory entry the listing owes a mount record: the decimal text of its id as name,
  with its length, the mapped node number, kind symbolic link.
\<close>

definition entry_of :: "vfsmount \<Rightarrow> string \<times> nat \<times> 64 word \<times> 32 word" where
  "entry_of m =
     (dec_int (sint (mnt_id m)), length (dec_int (sint (mnt_id m))), scast (mnt_inode m), DT_LNK)"

text \<open>What a call of \<open>filldir\<close> passes, the offset apart.\<close>

definition dirent_entry :: "dirent \<Rightarrow> string \<times> nat \<times> 64 word \<times> 32 word" where
  "dirent_entry e = (dirent_name e, dirent_namlen e, dirent_ino e, dirent_type e)"

section \<open>Concrete inputs\<close>

definition dentry_named :: "string \<Rightarrow> dentry" where
  "dentry_named s = \<lparr>d_name = \<lparr>len = length s, name = s\<rparr>, d_inode = None\<rparr>"

definition mount_at :: "c_int \<Rightarrow> string \<Rightarrow> vfsmount" where
  "mount_at i s = \<lparr>mnt_id = i, mnt_root = dentry_named s\<rparr>"

definition sample_table :: "vfsmount list" where
  "sample_table = [mount_at 7 ''/'', mount_at 42 ''/mnt/data'', mount_at 101 ''/home'']"

definition fresh_inode :: "c_ulong \<Rightarrow> inode" where
  "fresh_inode ino = \<lparr>i_ino = ino, I_NEW = True, i_nlink = 0, i_mtime = 0, i_atime = 0,
     i_ctime = 0, i_mode = 0, i_op = None, i_fop = None\<rparr>"

text \<open>
  A kernel whose calling task sees the given table, where every allocation succeeds and
  the path of a location is the name carried by its dentry.
\<close>

definition sample_kernel :: "vfsmount list \<Rightarrow> kernel" where
  "sample_kernel ms =
     \<lparr>task_nsproxy = Some \<lparr>mnt_ns = Some \<lparr>list = ms\<rparr>\<rparr>,
      kmalloc = True,
      d_path = (\<lambda>p n. if length (name (d_name (dentry p))) < n
                        then Inr (name (d_name (dentry p))) else Inl ENAMETOOLONG),
      copy_to_user = True,
      iget_locked = (\<lambda>ino. Some (fresh_inode ino)),
      d_alloc_root = (\<lambda>i. Some \<lparr>d_name = \<lparr>len = 1, name = ''/''\<rparr>, d_inode = Some (Inr i)\<rparr>),
      CURRENT_TIME = 0\<rparr>"

section \<open>Decimal text\<close>

lemma digit_char_eval:
  "digit_char 0 = CHR ''0''" "digit_char (Suc 0) = CHR ''1''" "digit_char 1 = CHR ''1''"
  "digit_char 2 = CHR ''2''" "digit_char 3 = CHR ''3''" "digit_char 4 = CHR ''4''"
  "digit_char 5 = CHR ''5''" "digit_char 6 = CHR ''6''" "digit_char 7 = CHR ''7''"
  "digit_char 8 = CHR ''8''" "digit_char 9 = CHR ''9''"
  by code_simp+

lemma of_char_digit_char: "d < 10 \<Longrightarrow> (of_char (digit_char d) :: nat) = 48 + d"
  by (simp add: digit_char_def)

lemma isdigit_digit_char: "d < 10 \<Longrightarrow> isdigit (digit_char d)"
  by (simp add: isdigit_def of_char_digit_char)

lemma digit_char_zero_iff: "d < 10 \<Longrightarrow> (digit_char d = CHR ''0'') = (d = 0)"
proof -
  assume d: "d < 10"
  have "(of_char (digit_char d) :: nat) = of_char CHR ''0'' \<longleftrightarrow> d = 0"
    using d by (simp add: of_char_digit_char)
  then show ?thesis by (metis of_char_eq_iff)
qed

lemma dec_nat_not_Nil: "dec_nat n \<noteq> []"
  by (subst dec_nat.simps) simp

lemma dec_nat_digits: "c \<in> set (dec_nat n) \<Longrightarrow> isdigit c"
proof (induction n arbitrary: c rule: dec_nat.induct)
  case (1 n)
  show ?case
  proof (cases "n < 10")
    case True
    with "1.prems" show ?thesis
      by (subst (asm) dec_nat.simps) (simp add: isdigit_digit_char)
  next
    case False
    with "1.prems" have "c \<in> set (dec_nat (n div 10)) \<or> c = digit_char (n mod 10)"
      by (subst (asm) dec_nat.simps) auto
    with False "1.IH" show ?thesis
      by (auto simp: isdigit_digit_char)
  qed
qed

lemma first_char_dec_nat: "0 < n \<Longrightarrow> first_char (dec_nat n) \<noteq> CHR ''0''"
proof (induction n rule: dec_nat.induct)
  case (1 n)
  show ?case
  proof (cases "n < 10")
    case True
    with "1.prems" show ?thesis
      by (subst dec_nat.simps) (simp add: first_char_def digit_char_zero_iff)
  next
    case False
    then have "0 < n div 10" by simp
    with False "1.IH" have "first_char (dec_nat (n div 10)) \<noteq> CHR ''0''" by simp
    moreover have "first_char (dec_nat n) = first_char (dec_nat (n div 10))"
      using False dec_nat_not_Nil [of "n div 10"]
      by (subst dec_nat.simps) (simp add: first_char_def split: list.splits)
    ultimately show ?thesis by simp
  qed
qed

lemma length_dec_nat_one: "n < 10 \<Longrightarrow> length (dec_nat n) = 1"
  by (subst dec_nat.simps) simp

lemma length_dec_nat: "0 < k \<Longrightarrow> n < 10 ^ k \<Longrightarrow> length (dec_nat n) \<le> k"
proof (induction n arbitrary: k rule: dec_nat.induct)
  case (1 n)
  show ?case
  proof (cases "n < 10")
    case True
    with "1.prems" show ?thesis by (simp add: length_dec_nat_one)
  next
    case False
    with "1.prems" obtain j where k: "k = Suc j" and j: "0 < j"
      by (cases k; cases "k - 1") auto
    from "1.prems" k have "n div 10 < 10 ^ j"
      by (simp add: less_mult_imp_div_less mult.commute)
    with False j "1.IH" have "length (dec_nat (n div 10)) \<le> j" by simp
    with False k show ?thesis by (subst dec_nat.simps) simp
  qed
qed

lemma simple_strtoul_append:
  "\<forall>c\<in>set ds. isdigit c \<Longrightarrow>
     simple_strtoul acc (ds @ rest) = simple_strtoul (fst (simple_strtoul acc ds)) rest"
  by (induction ds arbitrary: acc) auto

lemma simple_strtoul_digits:
  "\<forall>c\<in>set ds. isdigit c \<Longrightarrow> snd (simple_strtoul acc ds) = []"
  by (induction ds arbitrary: acc) auto

lemma simple_strtoul_dec_nat:
  "simple_strtoul acc (dec_nat n) = (acc * 10 ^ length (dec_nat n) + of_nat n, [])"
proof (induction n arbitrary: acc rule: dec_nat.induct)
  case (1 n)
  show ?case
  proof (cases "n < 10")
    case True
    then show ?thesis
      by (subst (1 2) dec_nat.simps) (simp add: isdigit_digit_char of_char_digit_char)
  next
    case False
    have dg: "\<forall>c\<in>set (dec_nat (n div 10)). isdigit c"
      by (simp add: dec_nat_digits)
    have "simple_strtoul acc (dec_nat n) =
        simple_strtoul (fst (simple_strtoul acc (dec_nat (n div 10)))) [digit_char (n mod 10)]"
      using False simple_strtoul_append [OF dg] by (subst dec_nat.simps) simp
    also have "\<dots> = ((acc * 10 ^ length (dec_nat (n div 10)) + of_nat (n div 10)) * 10 + of_nat (n mod 10), [])"
      using False "1.IH" by (simp add: isdigit_digit_char of_char_digit_char)
    also have "(acc * 10 ^ length (dec_nat (n div 10)) + of_nat (n div 10)) * 10 + of_nat (n mod 10)
        = acc * 10 ^ length (dec_nat n) + (of_nat n :: c_ulong)"
    proof -
      have "length (dec_nat n) = Suc (length (dec_nat (n div 10)))"
        using False by (subst dec_nat.simps) simp
      moreover have "(of_nat n :: c_ulong) = of_nat (n div 10) * 10 + of_nat (n mod 10)"
        by (metis div_mult_mod_eq of_nat_add of_nat_mult of_nat_numeral)
      ultimately show ?thesis by (simp add: algebra_simps)
    qed
    finally show ?thesis .
  qed
qed

lemma strict_strtoul_dec_nat: "strict_strtoul (dec_nat n) = Inr (of_nat n)"
  using dec_nat_not_Nil [of n]
  by (simp add: strict_strtoul_def simple_strtoul_dec_nat)

section \<open>Conversions between \<open>int\<close> and \<open>unsigned long\<close>\<close>

lemma sint_nonneg_uint: "0 \<le> sint (i :: c_int) \<Longrightarrow> sint i = uint i"
proof -
  assume h: "0 \<le> sint i"
  have s: "sint i = signed_take_bit 31 (uint i)" by (simp add: sint_uint)
  with h have nb: "\<not> bit (uint i) 31" by simp
  then have "signed_take_bit 31 (uint i) = take_bit 31 (uint i)"
    by (rule signed_take_bit_eq_if_positive)
  moreover have "take_bit 32 (uint i) = take_bit 31 (uint i)"
    using nb take_bit_Suc_from_most [of 31 "uint i"] by simp
  moreover have "take_bit 32 (uint i) = uint i"
    using uint_lt2p [of i] by (intro take_bit_int_eq_self) simp_all
  ultimately show ?thesis using s by simp
qed

lemma sint_plus_1000: "sint (i :: c_int) \<le> 2147482647 \<Longrightarrow> sint (i + 1000) = sint i + 1000"
proof -
  assume h: "sint i \<le> 2147482647"
  have lo: "- (2 ^ 31) \<le> sint i" using sint_ge [of i] by simp
  have "sint (i + 1000) = signed_take_bit 31 (sint i + 1000)"
    by (simp add: sint_word_ariths)
  also have "\<dots> = sint i + 1000"
    using h lo by (intro signed_take_bit_int_eq_self) simp_all
  finally show ?thesis .
qed

lemma mnt_id_plus_ne_1: "0 \<le> sint (i :: c_int) \<Longrightarrow> i + 1000 \<noteq> 1"
proof
  assume h: "0 \<le> sint i" and e: "i + 1000 = 1"
  from e have "i + 1000 - 1000 = 1 - 1000" by (rule arg_cong)
  then have "i = - 999" by simp
  then have "sint i = - 999" by simp
  with h show False by simp
qed

lemma scast_eq_1: "((scast (x :: c_int) :: c_ulong) = 1) = (x = 1)"
proof
  assume "(scast x :: c_ulong) = 1"
  then have "sint (scast x :: c_ulong) = 1" by simp
  then have "sint x = 1" by (simp add: sint_up_scast is_up)
  then have "sint x = sint (1 :: c_int)" by simp
  then show "x = 1" by (rule signed_word_eqI)
qed simp

lemma uint_scast_nonneg: "0 \<le> sint (x :: c_int) \<Longrightarrow> uint (scast x :: c_ulong) = sint x"
proof -
  assume h: "0 \<le> sint x"
  have "sint (scast x :: c_ulong) = sint x" by (simp add: sint_up_scast is_up)
  moreover have "sint (scast x :: c_ulong) = signed_take_bit 63 (uint (scast x :: c_ulong))"
    by (simp add: sint_uint)
  ultimately have s: "signed_take_bit 63 (uint (scast x :: c_ulong)) = sint x" by simp
  with h have nb: "\<not> bit (uint (scast x :: c_ulong)) 63"
    by (metis signed_take_bit_nonnegative_iff)
  then have "signed_take_bit 63 (uint (scast x :: c_ulong)) = take_bit 63 (uint (scast x :: c_ulong))"
    by (rule signed_take_bit_eq_if_positive)
  moreover have "take_bit 64 (uint (scast x :: c_ulong)) = take_bit 63 (uint (scast x :: c_ulong))"
    using nb take_bit_Suc_from_most [of 63 "uint (scast x :: c_ulong)"] by simp
  moreover have "take_bit 64 (uint (scast x :: c_ulong)) = uint (scast x :: c_ulong)"
    using uint_lt2p [of "scast x :: c_ulong"] by (intro take_bit_int_eq_self) simp_all
  ultimately show ?thesis using s by simp
qed

section \<open>What the scanners leave in the log\<close>

lemma find_mount_by_id_log:
  "find_mount_by_id k i tr = (r, tr') \<Longrightarrow>
     (case r of Inl e \<Rightarrow> e = ENOENT \<and> tr' = tr | Inr m \<Rightarrow> tr' = tr @ [Mntget m])"
  by (auto simp: find_mount_by_id_def split: option.splits)

lemma find_mount_by_dentry_log:
  "find_mount_by_dentry k de tr = (r, tr') \<Longrightarrow>
     (case r of Inl e \<Rightarrow> tr' = tr | Inr m \<Rightarrow> tr' = tr @ [Mntget m])"
  by (auto simp: find_mount_by_dentry_def split: if_splits sum.splits dest: find_mount_by_id_log)

lemma find_mount_by_dentry_indep:
  "fst (find_mount_by_dentry k de tr) = fst (find_mount_by_dentry k de tr0)"
  by (auto simp: find_mount_by_dentry_def find_mount_by_id_def split: if_splits sum.splits option.splits)

section \<open>Over-long names\<close>

text \<open>
  C4: when the length of the name exceeds \<open>NAME_MAX\<close>, lookup returns \<open>ENAMETOOLONG\<close>,
  never \<open>ENOENT\<close>, whatever the bytes of the name and whatever the kernel's mount table
  hold; the name is not parsed, the dentry is left as it was and no reference is taken.
\<close>

theorem name_too_long:
  "NAME_MAX < len (d_name de) \<Longrightarrow>
     mntfs_lookup k de tr = (Inl ENAMETOOLONG, de, tr) \<and>
     fst (mntfs_lookup k de tr) \<noteq> Inl ENOENT \<and>
     find_mount_by_dentry k de tr = (Inl ENAMETOOLONG, tr)"
  by (simp add: mntfs_lookup_def find_mount_by_dentry_def)

theorem name_too_long_witness:
  "NAME_MAX < len (d_name (dentry_named (replicate 256 CHR ''7''))) \<and>
   mntfs_lookup (sample_kernel sample_table) (dentry_named (replicate 256 CHR ''7'')) [] =
     (Inl ENAMETOOLONG, dentry_named (replicate 256 CHR ''7''), [])"
proof -
  have h: "NAME_MAX < len (d_name (dentry_named (replicate 256 CHR ''7'')))"
    by (simp add: NAME_MAX_def dentry_named_def)
  from name_too_long [OF h, of "sample_kernel sample_table" "[]"] h show ?thesis by simp
qed

section \<open>The sample table\<close>

lemma sample_lookup_42:
  "find_mount_by_dentry (sample_kernel sample_table) (dentry_named ''42'') tr =
     (Inr (mount_at 42 ''/mnt/data''), tr @ [Mntget (mount_at 42 ''/mnt/data'')])"
  by (simp add: find_mount_by_dentry_def find_mount_by_id_def strict_strtoul_def isdigit_def
      first_char_def NAME_MAX_def sample_kernel_def sample_table_def current_mnt_ns_def
      mount_at_def dentry_named_def)

lemma sample_lookup_5:
  "find_mount_by_dentry (sample_kernel sample_table) (dentry_named ''5'') tr = (Inl ENOENT, tr)"
  by (simp add: find_mount_by_dentry_def find_mount_by_id_def strict_strtoul_def isdigit_def
      first_char_def NAME_MAX_def sample_kernel_def sample_table_def current_mnt_ns_def
      mount_at_def dentry_named_def)

section \<open>Following a link\<close>

text \<open>
  C10: \<open>mntfs_follow\<close> releases the caller's traversal position first: the \<open>path_put\<close> of
  the old \<open>nd->path\<close> is the first call of every follow, made before the mount is looked
  up.  When the follow fails, that release is all that happened: the position has been
  dropped (the log grew), no reference was taken, and \<open>nd->path\<close> still names the
  released location.
\<close>

theorem follow_error_drops_position:
  "mntfs_follow k de nd tr = (r, nd', tr') \<Longrightarrow>
     (\<exists>rest. tr' = tr @ Path_put (path nd) # rest) \<and>
     (\<forall>e. r = Inl e \<longrightarrow> tr' = tr @ [Path_put (path nd)] \<and> tr' \<noteq> tr \<and> nd' = nd)"
  by (auto simp: mntfs_follow_def Let_def split: prod.splits sum.splits dest!: find_mount_by_dentry_log)

theorem follow_error_drops_position_witness:
  "mntfs_follow (sample_kernel sample_table) (dentry_named ''5'')
      \<lparr>path = \<lparr>mnt = mount_at 7 ''/'', dentry = dentry_named ''proc''\<rparr>\<rparr> [] =
     (Inl ENOENT, \<lparr>path = \<lparr>mnt = mount_at 7 ''/'', dentry = dentry_named ''proc''\<rparr>\<rparr>,
      [Path_put \<lparr>mnt = mount_at 7 ''/'', dentry = dentry_named ''proc''\<rparr>]) \<and>
   [Path_put \<lparr>mnt = mount_at 7 ''/'', dentry = dentry_named ''proc''\<rparr>] \<noteq> []"
proof -
  have run: "mntfs_follow (sample_kernel sample_table) (dentry_named ''5'')
      \<lparr>path = \<lparr>mnt = mount_at 7 ''/'', dentry = dentry_named ''proc''\<rparr>\<rparr> [] =
     (Inl ENOENT, \<lparr>path = \<lparr>mnt = mount_at 7 ''/'', dentry = dentry_named ''proc''\<rparr>\<rparr>,
      [Path_put \<lparr>mnt = mount_at 7 ''/'', dentry = dentry_named ''proc''\<rparr>])"
    by (simp add: mntfs_follow_def sample_lookup_5)
  from follow_error_drops_position [OF run] run show ?thesis by simp
qed

text \<open>
  C8: a follow that succeeds overwrites \<open>nd->path\<close> with the root location of the mount it
  found, \<open>(mnt, mnt->mnt_root)\<close>: the new position is the same whatever the old position
  was, so nothing of the old one is kept.  The calls are, in order: release of the old
  position, \<open>mntget\<close> by the scan, \<open>path_get\<close> of the new position, and only then the
  \<open>mntput\<close> of the scan's reference.
\<close>

theorem follow_redirect:
  "mntfs_follow k de nd tr = (Inr (), nd', tr') \<Longrightarrow>
     (\<exists>m. fst (find_mount_by_dentry k de tr) = Inr m \<and>
          path nd' = \<lparr>mnt = m, dentry = mnt_root m\<rparr> \<and>
          tr' = tr @ [Path_put (path nd), Mntget m, Path_get \<lparr>mnt = m, dentry = mnt_root m\<rparr>, Mntput m]) \<and>
     (\<forall>nd0 tr0. path (fst (snd (mntfs_follow k de nd0 tr0))) = path nd')"
proof -
  assume run: "mntfs_follow k de nd tr = (Inr (), nd', tr')"
  obtain r tr1 where f: "find_mount_by_dentry k de (tr @ [Path_put (path nd)]) = (r, tr1)"
    by (cases "find_mount_by_dentry k de (tr @ [Path_put (path nd)])") 
  from run f obtain m where r: "r = Inr m"
    by (cases r) (auto simp: mntfs_follow_def Let_def)
  from find_mount_by_dentry_log [OF f] r have tr1: "tr1 = tr @ [Path_put (path nd), Mntget m]"
    by simp
  from run f r tr1 have nd': "path nd' = \<lparr>mnt = m, dentry = mnt_root m\<rparr>"
    and tr': "tr' = tr @ [Path_put (path nd), Mntget m, Path_get \<lparr>mnt = m, dentry = mnt_root m\<rparr>, Mntput m]"
    by (auto simp: mntfs_follow_def Let_def)
  have fm: "fst (find_mount_by_dentry k de t) = Inr m" for t
    using f r find_mount_by_dentry_indep [of k de t "tr @ [Path_put (path nd)]"] by simp
  have "path (fst (snd (mntfs_follow k de nd0 tr0))) = path nd'" for nd0 tr0
    using fm [of "tr0 @ [Path_put (path nd0)]"] nd'
    by (cases "find_mount_by_dentry k de (tr0 @ [Path_put (path nd0)])")
       (simp add: mntfs_follow_def Let_def)
  with fm nd' tr' show ?thesis by blast
qed

theorem follow_redirect_witness:
  "mntfs_follow (sample_kernel sample_table) (dentry_named ''42'')
      \<lparr>path = \<lparr>mnt = mount_at 7 ''/'', dentry = dentry_named ''proc''\<rparr>\<rparr> [] =
     (Inr (), \<lparr>path = \<lparr>mnt = mount_at 42 ''/mnt/data'', dentry = dentry_named ''/mnt/data''\<rparr>\<rparr>,
      [Path_put \<lparr>mnt = mount_at 7 ''/'', dentry = dentry_named ''proc''\<rparr>,
       Mntget (mount_at 42 ''/mnt/data''),
       Path_get \<lparr>mnt = mount_at 42 ''/mnt/data'', dentry = dentry_named ''/mnt/data''\<rparr>,
       Mntput (mount_at 42 ''/mnt/data'')]) \<and>
   path (fst (snd (mntfs_follow (sample_kernel sample_table) (dentry_named ''42'')
      \<lparr>path = \<lparr>mnt = mount_at 101 ''/home'', dentry = dentry_named ''a''\<rparr>\<rparr> []))) =
     \<lparr>mnt = mount_at 42 ''/mnt/data'', dentry = dentry_named ''/mnt/data''\<rparr>"
proof -
  have run: "mntfs_follow (sample_kernel sample_table) (dentry_named ''42'')
      \<lparr>path = \<lparr>mnt = mount_at 7 ''/'', dentry = dentry_named ''proc''\<rparr>\<rparr> [] =
     (Inr (), \<lparr>path = \<lparr>mnt = mount_at 42 ''/mnt/data'', dentry = dentry_named ''/mnt/data''\<rparr>\<rparr>,
      [Path_put \<lparr>mnt = mount_at 7 ''/'', dentry = dentry_named ''proc''\<rparr>,
       Mntget (mount_at 42 ''/mnt/data''),
       Path_get \<lparr>mnt = mount_at 42 ''/mnt/data'', dentry = dentry_named ''/mnt/data''\<rparr>,
       Mntput (mount_at 42 ''/mnt/data'')])"
    by (simp add: mntfs_follow_def sample_lookup_42) (simp add: mount_at_def)
  from follow_redirect [OF run] run show ?thesis by simp
qed

section \<open>The dentry delete predicate\<close>

text \<open>
  C9: \<open>mntfs_dentry_delete\<close> answers 1 for every dentry, it is the \<open>d_delete\<close> member of
  \<open>mntfs_dentry_operations\<close>, and a \<open>mntfs_fill_super\<close> that succeeds leaves that table
  in \<open>sb->s_d_op\<close>.
\<close>

theorem dentry_delete_always:
  "mntfs_dentry_delete de = 1 \<and>
   d_delete mntfs_dentry_operations = Some mntfs_dentry_delete \<and>
   (mntfs_fill_super k sb = (Inr (), sb') \<longrightarrow> s_d_op sb' = Some mntfs_dentry_operations)"
  by (auto simp: mntfs_dentry_delete_def mntfs_dentry_operations_def mntfs_fill_super_def Let_def
           split: sum.splits if_splits)

theorem dentry_delete_always_witness:
  "fst (mntfs_fill_super (sample_kernel sample_table) \<lparr>s_op = None, s_root = None, s_d_op = None\<rparr>) = Inr () \<and>
   s_d_op (snd (mntfs_fill_super (sample_kernel sample_table) \<lparr>s_op = None, s_root = None, s_d_op = None\<rparr>)) =
     Some mntfs_dentry_operations \<and>
   mntfs_dentry_delete (dentry_named ''42'') = 1"
proof -
  have run: "fst (mntfs_fill_super (sample_kernel sample_table) \<lparr>s_op = None, s_root = None, s_d_op = None\<rparr>) = Inr ()"
    by (simp add: mntfs_fill_super_def mntfs_iget_def sample_kernel_def fresh_inode_def Let_def)
  obtain sb' where sb': "mntfs_fill_super (sample_kernel sample_table) \<lparr>s_op = None, s_root = None, s_d_op = None\<rparr> = (Inr (), sb')"
    using run by (cases "mntfs_fill_super (sample_kernel sample_table) \<lparr>s_op = None, s_root = None, s_d_op = None\<rparr>") simp
  from dentry_delete_always [of "dentry_named ''42''" "sample_kernel sample_table" "\<lparr>s_op = None, s_root = None, s_d_op = None\<rparr>" sb'] sb'
  show ?thesis by simp
qed

section \<open>Node numbers and names\<close>

lemma ucast_ucast_int: "(ucast (ucast (i :: c_int) :: c_ulong) :: c_int) = i"
  by (simp add: ucast_up_ucast_id is_up)

lemma dec_int_nonneg: "0 \<le> sint (i :: c_int) \<Longrightarrow> dec_int (sint i) = dec_nat (unat i)"
  by (simp add: dec_int_def sint_nonneg_uint)

lemma length_dec_nat_word: "length (dec_nat (unat (i :: c_int))) \<le> 10"
proof -
  have "unat i < 2 ^ 32" using unsigned_less [of i, where 'a = nat] by simp
  then have "unat i < 10 ^ 10" by simp
  then show ?thesis by (intro length_dec_nat) simp_all
qed

lemma dec_nat_no_leading_zero:
  "\<not> (first_char (dec_nat n) = CHR ''0'' \<and> 1 < length (dec_nat n))"
proof (cases "n = 0")
  case True
  then show ?thesis by (simp add: length_dec_nat_one)
next
  case False
  then show ?thesis using first_char_dec_nat [of n] by simp
qed

lemma find_mount_by_decimal_name:
  assumes "0 \<le> sint (i :: c_int)"
    and "d_name de = \<lparr>len = length (dec_int (sint i)), name = dec_int (sint i)\<rparr>"
  shows "find_mount_by_dentry k de tr = find_mount_by_id k i tr"
proof -
  from assms have n: "name (d_name de) = dec_nat (unat i)" and l: "len (d_name de) = length (dec_nat (unat i))"
    by (simp_all add: dec_int_nonneg)
  have "\<not> NAME_MAX < len (d_name de)"
    using length_dec_nat_word [of i] l by (simp add: NAME_MAX_def)
  moreover have "\<not> (first_char (name (d_name de)) = CHR ''0'' \<and> 1 < len (d_name de))"
    using dec_nat_no_leading_zero [of "unat i"] n l by simp
  ultimately show ?thesis
    using n l by (auto simp: find_mount_by_dentry_def strict_strtoul_dec_nat ucast_ucast_int)
qed

lemma dec_int_42: "dec_int 42 = ''42''"
  by (simp add: dec_int_def dec_nat.simps digit_char_eval)

text \<open>
  C2: the node number of a mount is \<open>mnt_id + 1000\<close>, computed in \<open>int\<close>.  Adding the
  constant is injective on the whole 32-bit id space.  For a valid id, that is a
  non-negative \<open>int\<close>, the node number is not the root's number 1, neither as \<open>int\<close> nor
  after its conversion to the \<open>unsigned long\<close> inode number; the decimal text of the id
  parses back to the id, and looking up a dentry of that name is scanning for that id.
  As long as the sum does not pass \<open>INT_MAX\<close> the inode number is the integer
  \<open>mnt_id + 1000\<close>.
\<close>

theorem node_id_mapping:
  "mnt_inode m = mnt_id m + 1000 \<and>
   ((mnt_inode m = mnt_inode m') = (mnt_id m = mnt_id m')) \<and>
   (0 \<le> sint (mnt_id m) \<longrightarrow>
      mnt_inode m \<noteq> 1 \<and> (scast (mnt_inode m) :: c_ulong) \<noteq> 1 \<and>
      (\<exists>v. strict_strtoul (dec_int (sint (mnt_id m))) = Inr v \<and> ucast v = mnt_id m) \<and>
      (d_name de = \<lparr>len = length (dec_int (sint (mnt_id m))), name = dec_int (sint (mnt_id m))\<rparr> \<longrightarrow>
         find_mount_by_dentry k de tr = find_mount_by_id k (mnt_id m) tr)) \<and>
   (0 \<le> sint (mnt_id m) \<and> sint (mnt_id m) \<le> 2147482647 \<longrightarrow>
      uint (scast (mnt_inode m) :: c_ulong) = sint (mnt_id m) + 1000)"
proof (intro conjI impI)
  show "mnt_inode m = mnt_id m + 1000" by (simp add: mnt_inode_def)
  show "(mnt_inode m = mnt_inode m') = (mnt_id m = mnt_id m')" by (simp add: mnt_inode_def)
next
  assume v: "0 \<le> sint (mnt_id m)"
  then show "mnt_inode m \<noteq> 1" by (simp add: mnt_inode_def mnt_id_plus_ne_1)
  then show "(scast (mnt_inode m) :: c_ulong) \<noteq> 1" by (simp add: scast_eq_1)
  show "\<exists>v. strict_strtoul (dec_int (sint (mnt_id m))) = Inr v \<and> ucast v = mnt_id m"
    using v by (simp add: dec_int_nonneg strict_strtoul_dec_nat ucast_ucast_int)
next
  assume "0 \<le> sint (mnt_id m)"
    and "d_name de = \<lparr>len = length (dec_int (sint (mnt_id m))), name = dec_int (sint (mnt_id m))\<rparr>"
  then show "find_mount_by_dentry k de tr = find_mount_by_id k (mnt_id m) tr"
    by (rule find_mount_by_decimal_name)
next
  assume b: "0 \<le> sint (mnt_id m) \<and> sint (mnt_id m) \<le> 2147482647"
  then have s: "sint (mnt_inode m) = sint (mnt_id m) + 1000"
    by (simp add: mnt_inode_def sint_plus_1000)
  with b have "0 \<le> sint (mnt_inode m)" by simp
  then show "uint (scast (mnt_inode m) :: c_ulong) = sint (mnt_id m) + 1000"
    using s by (simp add: uint_scast_nonneg)
qed

theorem node_id_mapping_witness:
  "mnt_inode (mount_at 42 ''/mnt/data'') = 1042 \<and>
   mnt_inode (mount_at 42 ''/mnt/data'') \<noteq> mnt_inode (mount_at 7 ''/'') \<and>
   0 \<le> sint (mnt_id (mount_at 42 ''/mnt/data'')) \<and>
   sint (mnt_id (mount_at 42 ''/mnt/data'')) \<le> 2147482647 \<and>
   mnt_inode (mount_at 42 ''/mnt/data'') \<noteq> 1 \<and>
   strict_strtoul ''42'' = Inr 42 \<and>
   find_mount_by_dentry (sample_kernel sample_table) (dentry_named ''42'') [] =
     find_mount_by_id (sample_kernel sample_table) 42 [] \<and>
   uint (scast (mnt_inode (mount_at 42 ''/mnt/data'')) :: c_ulong) = 1042"
proof -
  have id: "mnt_id (mount_at 42 ''/mnt/data'') = 42" "mnt_id (mount_at 7 ''/'') = 7"
    by (simp_all add: mount_at_def)
  have nm: "d_name (dentry_named ''42'') =
      \<lparr>len = length (dec_int (sint (mnt_id (mount_at 42 ''/mnt/data'')))),
       name = dec_int (sint (mnt_id (mount_at 42 ''/mnt/data'')))\<rparr>"
    by (simp add: id dec_int_42 dentry_named_def)
  have st: "strict_strtoul ''42'' = Inr 42"
    by (simp add: strict_strtoul_def isdigit_def)
  from node_id_mapping [of "mount_at 42 ''/mnt/data''" "mount_at 7 ''/''" "dentry_named ''42''"
      "sample_kernel sample_table" "[]"] nm st
  show ?thesis by (simp add: id mnt_inode_def)
qed

section \<open>Scanning the table\<close>

lemma find_mount_loop_Some:
  "find_mount_loop ms i = Some m \<Longrightarrow> m \<in> set ms \<and> mnt_id m = i"
  by (induction ms) (auto split: if_splits)

lemma find_mount_loop_None:
  "(find_mount_loop ms i = None) = (\<forall>m\<in>set ms. mnt_id m \<noteq> i)"
  by (induction ms) auto

lemma find_mount_loop_distinct:
  "distinct (map mnt_id ms) \<Longrightarrow> m \<in> set ms \<Longrightarrow> find_mount_loop ms (mnt_id m) = Some m"
  by (induction ms) auto

lemma find_mount_by_id_found:
  "(\<exists>m. fst (find_mount_by_id k i tr) = Inr m) =
     (\<exists>ns. current_mnt_ns k = Some ns \<and> (\<exists>m\<in>set (list ns). mnt_id m = i))"
proof (cases "current_mnt_ns k")
  case None
  then show ?thesis by (simp add: find_mount_by_id_def)
next
  case (Some ns)
  show ?thesis
  proof (cases "find_mount_loop (list ns) i")
    case None
    with Some show ?thesis
      using find_mount_loop_None [of "list ns" i] by (simp add: find_mount_by_id_def)
  next
    case (Some m)
    with \<open>current_mnt_ns k = Some ns\<close> show ?thesis
      using find_mount_loop_Some [of "list ns" i m] by (auto simp: find_mount_by_id_def)
  qed
qed

lemma lookup_succeeds_iff:
  "(fst (mntfs_lookup k de tr) = Inr ()) = (\<exists>m. fst (find_mount_by_dentry k de tr) = Inr m)"
  by (cases "find_mount_by_dentry k de tr"; cases "fst (find_mount_by_dentry k de tr)")
     (auto simp: mntfs_lookup_def Let_def)

lemma sample_current_mnt_ns: "current_mnt_ns (sample_kernel ms) = Some \<lparr>list = ms\<rparr>"
  by (simp add: sample_kernel_def current_mnt_ns_def)

lemma sample_d_path:
  "d_path (sample_kernel ms) \<lparr>mnt = mount_at 42 ''/mnt/data'', dentry = mnt_root (mount_at 42 ''/mnt/data'')\<rparr> PATH_MAX =
     Inr ''/mnt/data''"
  by (simp add: sample_kernel_def mount_at_def dentry_named_def PATH_MAX_def)

lemma replicate_256: "replicate 256 c = c # replicate 255 c"
  by (simp add: replicate_Suc [symmetric] del: replicate_Suc)

section \<open>Names with a leading zero\<close>

text \<open>
  C3, as the code has it: a dentry named by the single character \<open>0\<close> is looked up as
  mount id 0, and the lookup succeeds exactly when the calling task has a mount namespace
  whose table holds a mount with id 0.  A name that starts with \<open>0\<close>, is longer than one
  character and is not longer than \<open>NAME_MAX\<close> gives \<open>ENOENT\<close> whatever the table
  holds, without a reference being taken.
\<close>

theorem leading_zero:
  "(d_name de = \<lparr>len = 1, name = ''0''\<rparr> \<longrightarrow>
      find_mount_by_dentry k de tr = find_mount_by_id k 0 tr \<and>
      ((fst (mntfs_lookup k de tr) = Inr ()) =
         (\<exists>ns. current_mnt_ns k = Some ns \<and> (\<exists>m\<in>set (list ns). mnt_id m = 0)))) \<and>
   (1 < len (d_name de) \<and> len (d_name de) \<le> NAME_MAX \<and>
      first_char (name (d_name de)) = CHR ''0'' \<longrightarrow>
      mntfs_lookup k de tr = (Inl ENOENT, de, tr))"
proof (intro conjI impI)
  assume n: "d_name de = \<lparr>len = 1, name = ''0''\<rparr>"
  then show f: "find_mount_by_dentry k de tr = find_mount_by_id k 0 tr"
    by (simp add: find_mount_by_dentry_def NAME_MAX_def first_char_def strict_strtoul_def isdigit_def)
  show "(fst (mntfs_lookup k de tr) = Inr ()) =
         (\<exists>ns. current_mnt_ns k = Some ns \<and> (\<exists>m\<in>set (list ns). mnt_id m = 0))"
    using find_mount_by_id_found [of k 0 tr] by (simp add: lookup_succeeds_iff f)
next
  assume "1 < len (d_name de) \<and> len (d_name de) \<le> NAME_MAX \<and>
      first_char (name (d_name de)) = CHR ''0''"
  then show "mntfs_lookup k de tr = (Inl ENOENT, de, tr)"
    by (simp add: mntfs_lookup_def find_mount_by_dentry_def)
qed

theorem leading_zero_witness:
  "fst (mntfs_lookup (sample_kernel sample_table) (dentry_named ''0'') []) \<noteq> Inr () \<and>
   fst (mntfs_lookup (sample_kernel [mount_at 0 ''/'']) (dentry_named ''0'') []) = Inr () \<and>
   mntfs_lookup (sample_kernel [mount_at 0 ''/'']) (dentry_named ''007'') [] =
     (Inl ENOENT, dentry_named ''007'', [])"
proof -
  have a: "d_name (dentry_named ''0'') = \<lparr>len = 1, name = ''0''\<rparr>"
    by (simp add: dentry_named_def)
  have b: "1 < len (d_name (dentry_named ''007'')) \<and> len (d_name (dentry_named ''007'')) \<le> NAME_MAX \<and>
      first_char (name (d_name (dentry_named ''007''))) = CHR ''0''"
    by (simp add: dentry_named_def NAME_MAX_def first_char_def)
  have c: "current_mnt_ns (sample_kernel ms) = Some \<lparr>list = ms\<rparr>" for ms
    by (simp add: sample_kernel_def current_mnt_ns_def)
  from leading_zero [of "dentry_named ''0''" "sample_kernel sample_table" "[]"]
    leading_zero [of "dentry_named ''0''" "sample_kernel [mount_at 0 ''/'']" "[]"]
    leading_zero [of "dentry_named ''007''" "sample_kernel [mount_at 0 ''/'']" "[]"] a b
  show ?thesis by (simp add: c sample_table_def mount_at_def)
qed

text \<open>
  C3 as stated covers every name longer than one character that starts with \<open>0\<close>.  A name
  of 256 zeros is one, and the lookup answers \<open>ENAMETOOLONG\<close>, not \<open>ENOENT\<close>: the length
  test of line 54 comes first.
\<close>

theorem leading_zero_counterexample:
  "1 < len (d_name (dentry_named (replicate 256 CHR ''0''))) \<and>
   first_char (name (d_name (dentry_named (replicate 256 CHR ''0'')))) = CHR ''0'' \<and>
   fst (mntfs_lookup (sample_kernel sample_table) (dentry_named (replicate 256 CHR ''0'')) []) =
     Inl ENAMETOOLONG \<and>
   fst (mntfs_lookup (sample_kernel sample_table) (dentry_named (replicate 256 CHR ''0'')) []) \<noteq>
     Inl ENOENT"
  by (simp add: mntfs_lookup_def find_mount_by_dentry_def dentry_named_def NAME_MAX_def
      first_char_def replicate_256 del: replicate_Suc)

section \<open>Reading a link\<close>

text \<open>
  C7, as the code has it: for a mount of the caller's table with a non-negative id, ids
  being distinct in the table, reading the link of the dentry named by the decimal id
  copies the path that \<open>d_path\<close> composed for the mount's root, cut at the length of the
  caller's buffer, provided the path buffer was allocated, \<open>d_path\<close> succeeded and the
  caller's buffer is writable.  The result is the number of bytes copied.  When the buffer
  is at least as long as the path, the caller receives exactly the path.  The reference
  taken by the scan is released.
\<close>

theorem readlink_path:
  assumes "current_mnt_ns k = Some ns" and "m \<in> set (list ns)"
    and "distinct (map mnt_id (list ns))" and "0 \<le> sint (mnt_id m)"
    and "d_name de = \<lparr>len = length (dec_int (sint (mnt_id m))), name = dec_int (sint (mnt_id m))\<rparr>"
    and "kmalloc k" and "d_path k \<lparr>mnt = m, dentry = mnt_root m\<rparr> PATH_MAX = Inr p"
    and "copy_to_user k"
  shows "mntfs_readlink k de buflen tr =
           (Inr (min (length p) (unat buflen)), Some (take (unat buflen) p), tr @ [Mntget m, Mntput m]) \<and>
         (length p \<le> unat buflen \<longrightarrow>
            mntfs_readlink k de buflen tr = (Inr (length p), Some p, tr @ [Mntget m, Mntput m]))"
proof -
  have "find_mount_by_dentry k de tr = find_mount_by_id k (mnt_id m) tr"
    using assms(4,5) by (rule find_mount_by_decimal_name)
  also have "\<dots> = (Inr m, tr @ [Mntget m])"
    using assms(1-3) by (simp add: find_mount_by_id_def find_mount_loop_distinct)
  finally have f: "find_mount_by_dentry k de tr = (Inr m, tr @ [Mntget m])" .
  have r: "mntfs_readlink k de buflen tr =
      (Inr (min (length p) (unat buflen)), Some (take (unat buflen) p), tr @ [Mntget m, Mntput m])"
    using assms(6-8) by (simp add: mntfs_readlink_def f vfs_readlink_def min_def Let_def)
  then show ?thesis by simp
qed

theorem readlink_path_witness:
  "mntfs_readlink (sample_kernel sample_table) (dentry_named ''42'') 100 [] =
     (Inr 9, Some ''/mnt/data'', [Mntget (mount_at 42 ''/mnt/data''), Mntput (mount_at 42 ''/mnt/data'')]) \<and>
   mntfs_readlink (sample_kernel sample_table) (dentry_named ''42'') 4 [] =
     (Inr 4, Some ''/mnt'', [Mntget (mount_at 42 ''/mnt/data''), Mntput (mount_at 42 ''/mnt/data'')])"
proof -
  have id: "mnt_id (mount_at 42 ''/mnt/data'') = 42"
    by (simp add: mount_at_def)
  have 1: "mount_at 42 ''/mnt/data'' \<in> set (list \<lparr>list = sample_table\<rparr>)"
    by (simp add: sample_table_def)
  have 2: "distinct (map mnt_id (list \<lparr>list = sample_table\<rparr>))"
    by (simp add: sample_table_def mount_at_def)
  have 3: "0 \<le> sint (mnt_id (mount_at 42 ''/mnt/data''))"
    by (simp add: id)
  have 4: "d_name (dentry_named ''42'') =
      \<lparr>len = length (dec_int (sint (mnt_id (mount_at 42 ''/mnt/data'')))),
       name = dec_int (sint (mnt_id (mount_at 42 ''/mnt/data'')))\<rparr>"
    by (simp add: id dec_int_42 dentry_named_def)
  have 5: "kmalloc (sample_kernel sample_table)" "copy_to_user (sample_kernel sample_table)"
    by (simp_all add: sample_kernel_def)
  note rl = readlink_path [OF sample_current_mnt_ns 1 2 3 4 5(1) sample_d_path 5(2)]
  from rl [of 100 "[]"] rl [of 4 "[]"] show ?thesis by simp
qed

text \<open>
  C7 as stated promises exactly the path for every mount of the table.  With mount 42
  rooted at \<open>/mnt/data\<close> and a buffer of 4 bytes the caller receives \<open>/mnt\<close>.
\<close>

theorem readlink_path_counterexample:
  "mount_at 42 ''/mnt/data'' \<in> set sample_table \<and>
   d_path (sample_kernel sample_table)
     \<lparr>mnt = mount_at 42 ''/mnt/data'', dentry = mnt_root (mount_at 42 ''/mnt/data'')\<rparr> PATH_MAX =
     Inr ''/mnt/data'' \<and>
   fst (snd (mntfs_readlink (sample_kernel sample_table) (dentry_named ''42'') 4 [])) = Some ''/mnt'' \<and>
   fst (snd (mntfs_readlink (sample_kernel sample_table) (dentry_named ''42'') 4 [])) \<noteq> Some ''/mnt/data''"
  by (simp add: mntfs_readlink_def sample_lookup_42 sample_d_path vfs_readlink_def)
     (simp add: sample_kernel_def sample_table_def)

text \<open>
  C5: the claim is that a failed allocation surfaces as an allocation failure.  With mount
  42 in the table and \<open>kmalloc\<close> returning \<open>NULL\<close>, \<open>mntfs_readlink\<close> returns
  \<open>-ENOENT\<close>: \<open>error\<close> still holds its initial value at \<open>out_mntput\<close>.  The sibling
  \<open>mntfs_iget\<close> does return \<open>-ENOMEM\<close> when \<open>iget_locked\<close> fails, but
  \<open>mntfs_lookup\<close> hands that \<open>ERR_PTR\<close> to \<open>d_add\<close> and returns \<open>NULL\<close>.
\<close>

theorem readlink_alloc_failure:
  "mntfs_readlink ((sample_kernel sample_table)\<lparr>kmalloc := False\<rparr>) (dentry_named ''42'') 100 [] =
     (Inl ENOENT, None, [Mntget (mount_at 42 ''/mnt/data''), Mntput (mount_at 42 ''/mnt/data'')]) \<and>
   mntfs_iget ((sample_kernel sample_table)\<lparr>iget_locked := (\<lambda>ino. None)\<rparr>) 1042 = Inl ENOMEM \<and>
   mntfs_lookup ((sample_kernel sample_table)\<lparr>iget_locked := (\<lambda>ino. None)\<rparr>) (dentry_named ''42'') [] =
     (Inr (), (dentry_named ''42'')\<lparr>d_inode := Some (Inl ENOMEM)\<rparr>,
      [Mntget (mount_at 42 ''/mnt/data''), Mntput (mount_at 42 ''/mnt/data'')])"
  by (simp add: mntfs_readlink_def mntfs_lookup_def mntfs_iget_def d_add_def mnt_inode_def
      find_mount_by_dentry_def find_mount_by_id_def strict_strtoul_def isdigit_def
      first_char_def NAME_MAX_def sample_kernel_def sample_table_def current_mnt_ns_def
      mount_at_def dentry_named_def)

section \<open>Listing the directory\<close>

lemma length_dec_int_word: "length (dec_int (sint (i :: c_int))) \<le> 11"
proof (cases "sint i < 0")
  case True
  have "- (2 ^ 31) \<le> sint i" using sint_ge [of i] by simp
  then have "nat (- sint i) < 10 ^ 10" by simp
  then have "length (dec_nat (nat (- sint i))) \<le> 10"
    by (intro length_dec_nat) simp_all
  with True show ?thesis by (simp add: dec_int_def)
next
  case False
  then show ?thesis
    using length_dec_nat_word [of i] by (simp add: dec_int_nonneg)
qed

lemma snprintf_d_13: "snprintf_d 13 i = (dec_int (sint i), length (dec_int (sint i)))"
  using length_dec_int_word [of i] by (simp add: snprintf_d_def)

lemma sint_of_nat_int: "k < 2 ^ 31 \<Longrightarrow> sint (of_nat k :: c_int) = int k"
proof -
  assume "k < 2 ^ 31"
  then have "signed_take_bit 31 (int k) = int k"
    by (intro signed_take_bit_int_eq_self) simp_all
  then show ?thesis by (simp add: signed_of_nat)
qed

lemma word_sle_counter:
  "k < 2 ^ 31 \<Longrightarrow> word_sle (fp :: loff_t) (scast (of_nat k :: c_int)) = (sint fp \<le> int k)"
  by (simp add: word_sle_eq sint_up_scast is_up sint_of_nat_int)

lemma sint_scast_counter:
  "k < 2 ^ 31 \<Longrightarrow> sint (scast (of_nat k :: c_int) :: loff_t) = int k"
  by (simp add: sint_up_scast is_up sint_of_nat_int)

lemma scast_counter:
  "k < 2 ^ 31 \<Longrightarrow> (scast (of_nat k :: c_int) :: loff_t) = of_nat k"
proof -
  assume k: "k < 2 ^ 31"
  then have "signed_take_bit 63 (int k) = int k"
    by (intro signed_take_bit_int_eq_self) simp_all
  then have "sint (of_nat k :: loff_t) = int k" by (simp add: signed_of_nat)
  with k have "sint (scast (of_nat k :: c_int) :: loff_t) = sint (of_nat k :: loff_t)"
    by (simp add: sint_scast_counter)
  then show ?thesis by (rule signed_word_eqI)
qed

lemma counter_incr: "(of_nat k + 1 :: c_int) = of_nat (Suc k)"
  by simp

lemma readdir_loop_entries:
  "k + length ms < 2 ^ 31 \<Longrightarrow>
     map dirent_entry (snd (readdir_loop ms fp (of_nat k) out)) =
       map dirent_entry out @ map entry_of (drop (nat (sint fp - int k)) ms)"
proof (induction ms arbitrary: k fp out)
  case Nil
  then show ?case by simp
next
  case (Cons m ms)
  from Cons.prems have k: "k < 2 ^ 31" and k': "Suc k + length ms < 2 ^ 31" by simp_all
  show ?case
  proof (cases "sint fp \<le> int k")
    case True
    have "sint (scast (of_nat (Suc k) :: c_int) :: loff_t) = int (Suc k)"
      using k' by (intro sint_scast_counter) simp
    with True Cons.IH [OF k'] show ?thesis
      using k by (simp add: word_sle_counter snprintf_d_13 dirent_entry_def entry_of_def counter_incr del: of_nat_Suc)
  next
    case False
    then have "nat (sint fp - int k) = Suc (nat (sint fp - int (Suc k)))" by simp
    with False Cons.IH [OF k'] show ?thesis
      using k by (simp add: word_sle_counter counter_incr del: of_nat_Suc)
  qed
qed

lemma readdir_loop_offsets:
  "k + length ms < 2 ^ 31 \<Longrightarrow> k \<le> p \<Longrightarrow> sint fp = int p \<Longrightarrow>
     map dirent_offset (snd (readdir_loop ms fp (of_nat k) out)) =
       map dirent_offset out @ (if p < k + length ms then fp # map of_nat [Suc p..<k + length ms] else [])"
proof (induction ms arbitrary: k p fp out)
  case Nil
  then show ?case by simp
next
  case (Cons m ms)
  from Cons.prems have k: "k < 2 ^ 31" and k': "Suc k + length ms < 2 ^ 31" by simp_all
  show ?case
  proof (cases "p = k")
    case True
    have s: "sint (scast (of_nat (Suc k) :: c_int) :: loff_t) = int (Suc k)"
      using k' by (intro sint_scast_counter) simp
    have c: "(scast (of_nat (Suc k) :: c_int) :: loff_t) = of_nat (Suc k)"
      using k' by (intro scast_counter) simp
    have "map dirent_offset (snd (readdir_loop ms (scast (of_nat (Suc k) :: c_int)) (of_nat (Suc k)) out')) =
       map dirent_offset out' @ (if Suc k < Suc k + length ms
          then scast (of_nat (Suc k) :: c_int) # map of_nat [Suc (Suc k)..<Suc k + length ms] else [])" for out'
      using Cons.IH [OF k' _ s] by simp
    then show ?thesis
      using True k Cons.prems(3) c
      by (simp add: word_sle_counter snprintf_d_13 upt_conv_Cons counter_incr del: of_nat_Suc upt_Suc)
  next
    case False
    with Cons.prems have "Suc k \<le> p" by simp
    from Cons.IH [OF k' this Cons.prems(3)] False Cons.prems(2,3) show ?thesis
      using k by (simp add: word_sle_counter counter_incr del: of_nat_Suc)
  qed
qed

lemma readdir_loop_pos:
  "k + length ms < 2 ^ 31 \<Longrightarrow>
     fst (readdir_loop ms fp (of_nat k) out) =
       (if ms \<noteq> [] \<and> sint fp < int (k + length ms) then of_nat (k + length ms) else fp)"
proof (induction ms arbitrary: k fp out)
  case Nil
  then show ?case by simp
next
  case (Cons m ms)
  from Cons.prems have k: "k < 2 ^ 31" and k': "Suc k + length ms < 2 ^ 31" by simp_all
  show ?case
  proof (cases "sint fp \<le> int k")
    case True
    have s: "sint (scast (of_nat (Suc k) :: c_int) :: loff_t) = int (Suc k)"
      using k' by (intro sint_scast_counter) simp
    have c: "(scast (of_nat (Suc k) :: c_int) :: loff_t) = of_nat (Suc k)"
      using k' by (intro scast_counter) simp
    from True Cons.IH [OF k', of "scast (of_nat (Suc k) :: c_int)"] s c show ?thesis
      using k by (simp add: word_sle_counter snprintf_d_13 counter_incr del: of_nat_Suc)
  next
    case False
    with Cons.IH [OF k', of fp out] show ?thesis
      using k by (simp add: word_sle_counter counter_incr del: of_nat_Suc)
  qed
qed

lemma word_of_sint_nat: "0 \<le> sint (fp :: loff_t) \<Longrightarrow> fp = of_nat (nat (sint fp))"
proof -
  assume "0 \<le> sint fp"
  then have "(of_nat (nat (sint fp)) :: loff_t) = of_int (sint fp)"
    by simp
  then show ?thesis by simp
qed

lemma sample_entries:
  "map entry_of sample_table =
     [(''7'', 1, 1007, DT_LNK), (''42'', 2, 1042, DT_LNK), (''101'', 3, 1101, DT_LNK)]"
  by (simp add: sample_table_def entry_of_def mount_at_def mnt_inode_def dec_int_def
      dec_nat.simps digit_char_eval)

text \<open>
  C6: when the calling task has a mount namespace whose table holds fewer than \<open>2 ^ 31\<close>
  records, \<open>mntfs_readdir\<close> started at position \<open>p\<close> calls \<open>filldir\<close> once for every
  record whose zero-based index in the table is at least \<open>p\<close>, in table order, and for no
  other.  Each call passes the decimal text of the mount id with its length, the node
  number \<open>mnt_inode\<close> and \<open>DT_LNK\<close>.  For \<open>p\<close> not negative the offsets passed are the
  indices.  The position left in the file is the length of the table when something was
  listed.  The function returns 0 and makes no reference-count call.
\<close>

theorem readdir_entries:
  assumes "current_mnt_ns k = Some ns" and "length (list ns) < 2 ^ 31"
  shows "fst (mntfs_readdir k filp tr) = 0 \<and>
     map dirent_entry (fst (snd (snd (mntfs_readdir k filp tr)))) =
       map entry_of (drop (nat (sint (f_pos filp))) (list ns)) \<and>
     (0 \<le> sint (f_pos filp) \<longrightarrow>
        map dirent_offset (fst (snd (snd (mntfs_readdir k filp tr)))) =
          map of_nat [nat (sint (f_pos filp))..<length (list ns)]) \<and>
     f_pos (fst (snd (mntfs_readdir k filp tr))) =
       (if list ns \<noteq> [] \<and> sint (f_pos filp) < int (length (list ns))
        then of_nat (length (list ns)) else f_pos filp) \<and>
     snd (snd (snd (mntfs_readdir k filp tr))) = tr"
proof -
  obtain fp out where l: "readdir_loop (list ns) (f_pos filp) 0 [] = (fp, out)"
    by (cases "readdir_loop (list ns) (f_pos filp) 0 []")
  then have r: "mntfs_readdir k filp tr = (0, filp\<lparr>f_pos := fp\<rparr>, out, tr)"
    using assms(1) by (simp add: mntfs_readdir_def)
  from assms(2) have b: "0 + length (list ns) < 2 ^ 31" by simp
  have e: "map dirent_entry out = map entry_of (drop (nat (sint (f_pos filp))) (list ns))"
    using readdir_loop_entries [OF b, of "f_pos filp" "[]"] l by simp
  have p: "fp = (if list ns \<noteq> [] \<and> sint (f_pos filp) < int (length (list ns))
        then of_nat (length (list ns)) else f_pos filp)"
    using readdir_loop_pos [OF b, of "f_pos filp" "[]"] l by simp
  have o: "map dirent_offset out = map of_nat [nat (sint (f_pos filp))..<length (list ns)]"
    if nn: "0 \<le> sint (f_pos filp)"
  proof -
    from nn have s: "sint (f_pos filp) = int (nat (sint (f_pos filp)))" by simp
    have "map dirent_offset out =
        (if nat (sint (f_pos filp)) < length (list ns)
         then f_pos filp # map of_nat [Suc (nat (sint (f_pos filp)))..<length (list ns)] else [])"
      using readdir_loop_offsets [OF b _ s, of "[]"] l by simp
    also have "\<dots> = map of_nat [nat (sint (f_pos filp))..<length (list ns)]"
      using word_of_sint_nat [OF nn] by (simp add: upt_conv_Cons del: upt_Suc)
    finally show ?thesis .
  qed
  from r e p o show ?thesis by simp
qed

text \<open>
  The table \<open>[7, 42, 101]\<close> listed from position 0 and from position 2.
\<close>

theorem readdir_entries_witness:
  "map dirent_entry (fst (snd (snd (mntfs_readdir (sample_kernel sample_table) \<lparr>f_pos = 0\<rparr> [])))) =
     [(''7'', 1, 1007, DT_LNK), (''42'', 2, 1042, DT_LNK), (''101'', 3, 1101, DT_LNK)] \<and>
   map dirent_offset (fst (snd (snd (mntfs_readdir (sample_kernel sample_table) \<lparr>f_pos = 0\<rparr> [])))) =
     [0, 1, 2] \<and>
   map dirent_entry (fst (snd (snd (mntfs_readdir (sample_kernel sample_table) \<lparr>f_pos = 2\<rparr> [])))) =
     [(''101'', 3, 1101, DT_LNK)] \<and>
   map dirent_offset (fst (snd (snd (mntfs_readdir (sample_kernel sample_table) \<lparr>f_pos = 2\<rparr> [])))) =
     [2] \<and>
   f_pos (fst (snd (mntfs_readdir (sample_kernel sample_table) \<lparr>f_pos = 2\<rparr> []))) = 3"
proof -
  have n: "length (list \<lparr>list = sample_table\<rparr>) < 2 ^ 31"
    by (simp add: sample_table_def)
  have len: "length sample_table = 3"
    by (simp add: sample_table_def)
  have d: "drop 2 sample_table = [mount_at 101 ''/home'']"
    by (simp add: sample_table_def)
  have u: "[0..<3] = [0, 1, 2]" "[2..<3] = [2::nat]"
    by (simp_all add: upt_conv_Cons del: upt_Suc)
  have e2: "entry_of (mount_at 101 ''/home'') = (''101'', 3, 1101, DT_LNK)"
    using sample_entries by (simp add: sample_table_def)
  have ne: "sample_table \<noteq> []" by (simp add: sample_table_def)
  from readdir_entries [OF sample_current_mnt_ns n, of "\<lparr>f_pos = 0\<rparr>" "[]"]
    readdir_entries [OF sample_current_mnt_ns n, of "\<lparr>f_pos = 2\<rparr>" "[]"]
  show ?thesis by (simp add: sample_entries len d u e2 ne del: upt_Suc)
qed

section \<open>References taken and released\<close>

lemma find_mount_by_id_snd:
  "snd (find_mount_by_id k i tr) =
     (case fst (find_mount_by_id k i tr) of Inl e \<Rightarrow> tr | Inr m \<Rightarrow> tr @ [Mntget m])"
  by (simp add: find_mount_by_id_def split: option.splits)

lemma find_mount_by_dentry_snd:
  "snd (find_mount_by_dentry k de tr) =
     (case fst (find_mount_by_dentry k de tr) of Inl e \<Rightarrow> tr | Inr m \<Rightarrow> tr @ [Mntget m])"
  using find_mount_by_dentry_log [of k de tr "fst (find_mount_by_dentry k de tr)" "snd (find_mount_by_dentry k de tr)"]
  by (simp split: sum.splits)

text \<open>
  C1, as the code has it: \<open>find_mount_by_id\<close> takes one reference, on the record it
  returns, and none when it fails.  \<open>mntfs_lookup\<close>, \<open>mntfs_readlink\<close> and
  \<open>mntfs_follow\<close> release that reference exactly once before they return, on every path
  that obtained it, and make no \<open>mntget\<close> or \<open>mntput\<close> call on the paths that did not.
  \<open>mntfs_readdir\<close> makes no reference-count call at all.
\<close>

theorem reference_balance:
  "snd (find_mount_by_id k i tr) =
     (case fst (find_mount_by_id k i tr) of Inl e \<Rightarrow> tr | Inr m \<Rightarrow> tr @ [Mntget m]) \<and>
   (case fst (find_mount_by_dentry k de tr) of
      Inl e \<Rightarrow>
        snd (snd (mntfs_lookup k de tr)) = tr \<and>
        snd (snd (mntfs_readlink k de buflen tr)) = tr \<and>
        snd (snd (mntfs_follow k de nd tr)) = tr @ [Path_put (path nd)]
    | Inr m \<Rightarrow>
        snd (snd (mntfs_lookup k de tr)) = tr @ [Mntget m, Mntput m] \<and>
        snd (snd (mntfs_readlink k de buflen tr)) = tr @ [Mntget m, Mntput m] \<and>
        snd (snd (mntfs_follow k de nd tr)) =
          tr @ [Path_put (path nd), Mntget m, Path_get \<lparr>mnt = m, dentry = mnt_root m\<rparr>, Mntput m]) \<and>
   snd (snd (snd (mntfs_readdir k filp tr))) = tr \<and>
   mount_refs (snd (snd (snd (mntfs_readdir k filp [])))) = []"
proof -
  have rd: "snd (snd (snd (mntfs_readdir k filp t))) = t" for t
    by (simp add: mntfs_readdir_def split: option.splits prod.splits)
  obtain r tr1 where f: "find_mount_by_dentry k de tr = (r, tr1)"
    by (cases "find_mount_by_dentry k de tr")
  obtain r0 tr0 where f0: "find_mount_by_dentry k de (tr @ [Path_put (path nd)]) = (r0, tr0)"
    by (cases "find_mount_by_dentry k de (tr @ [Path_put (path nd)])")
  have r0: "r0 = r"
    using find_mount_by_dentry_indep [of k de "tr @ [Path_put (path nd)]" tr] f f0 by simp
  have ops: "case r of
      Inl e \<Rightarrow>
        snd (snd (mntfs_lookup k de tr)) = tr \<and>
        snd (snd (mntfs_readlink k de buflen tr)) = tr \<and>
        snd (snd (mntfs_follow k de nd tr)) = tr @ [Path_put (path nd)]
    | Inr m \<Rightarrow>
        snd (snd (mntfs_lookup k de tr)) = tr @ [Mntget m, Mntput m] \<and>
        snd (snd (mntfs_readlink k de buflen tr)) = tr @ [Mntget m, Mntput m] \<and>
        snd (snd (mntfs_follow k de nd tr)) =
          tr @ [Path_put (path nd), Mntget m, Path_get \<lparr>mnt = m, dentry = mnt_root m\<rparr>, Mntput m]"
  proof (cases r)
    case (Inl e)
    with find_mount_by_dentry_log [OF f] find_mount_by_dentry_log [OF f0] r0 f f0 show ?thesis
      by (simp add: mntfs_lookup_def mntfs_readlink_def mntfs_follow_def Let_def)
  next
    case (Inr m)
    with find_mount_by_dentry_log [OF f] find_mount_by_dentry_log [OF f0] r0 f f0 show ?thesis
      by (simp add: mntfs_lookup_def mntfs_readlink_def mntfs_follow_def Let_def
          split: sum.splits prod.splits)
  qed
  from ops f rd [of tr] rd [of "[]"] show ?thesis
    by (simp add: find_mount_by_id_snd)
qed

theorem reference_balance_witness:
  "snd (snd (mntfs_lookup (sample_kernel sample_table) (dentry_named ''42'') [])) =
     [Mntget (mount_at 42 ''/mnt/data''), Mntput (mount_at 42 ''/mnt/data'')] \<and>
   snd (snd (mntfs_readlink (sample_kernel sample_table) (dentry_named ''42'') 100 [])) =
     [Mntget (mount_at 42 ''/mnt/data''), Mntput (mount_at 42 ''/mnt/data'')] \<and>
   snd (snd (mntfs_lookup (sample_kernel sample_table) (dentry_named ''5'') [])) = [] \<and>
   snd (snd (snd (mntfs_readdir (sample_kernel sample_table) \<lparr>f_pos = 0\<rparr> []))) = []"
proof -
  have a: "fst (find_mount_by_dentry (sample_kernel sample_table) (dentry_named ''42'') []) =
      Inr (mount_at 42 ''/mnt/data'')"
    by (simp add: sample_lookup_42)
  have b: "fst (find_mount_by_dentry (sample_kernel sample_table) (dentry_named ''5'') []) = Inl ENOENT"
    by (simp add: sample_lookup_5)
  from reference_balance [of "sample_kernel sample_table" 42 "[]" "dentry_named ''42''" 100
      "\<lparr>path = \<lparr>mnt = mount_at 7 ''/'', dentry = dentry_named ''proc''\<rparr>\<rparr>" "\<lparr>f_pos = 0\<rparr>"]
    reference_balance [of "sample_kernel sample_table" 42 "[]" "dentry_named ''5''" 100
      "\<lparr>path = \<lparr>mnt = mount_at 7 ''/'', dentry = dentry_named ''proc''\<rparr>\<rparr>" "\<lparr>f_pos = 0\<rparr>"]
  show ?thesis by (simp add: a b)
qed

text \<open>
  C1 as stated has the listing hold a handle for each record it yields.  Listing the table
  \<open>[7, 42, 101]\<close> yields three entries and the log holds no \<open>mntget\<close>.
\<close>

theorem reference_balance_counterexample:
  "length (fst (snd (snd (mntfs_readdir (sample_kernel sample_table) \<lparr>f_pos = 0\<rparr> [])))) = 3 \<and>
   mount_refs (snd (snd (snd (mntfs_readdir (sample_kernel sample_table) \<lparr>f_pos = 0\<rparr> [])))) = []"
  by (simp add: mntfs_readdir_def sample_kernel_def current_mnt_ns_def sample_table_def
      mount_at_def snprintf_d_def word_sle_eq)

end
